theory Spec2Isabelle
  imports Complex_Main "HOL-Library.Word"
begin

section \<open>Numbers of the program\<close>

text \<open>
  The program computes with Python and numpy floating-point numbers.  They are modelled as
  the real numbers extended by the three special values the program can produce or meet:
  not-a-number (\<^verbatim>\<open>np.nan\<close>, returned literally by \<^verbatim>\<open>hist_move\<close>) and the
  two infinities (numpy's result of dividing a non-zero number by zero).  The operators
  \<open>+\<close>, \<open>-\<close>, \<open>*\<close> and \<open>/\<close> on floating-point numbers give the exact real
  result; overflow to infinity and the sign of zero are not modelled, and a zero
  denominator is taken as \<^verbatim>\<open>+0.0\<close>.  Rounding to double precision is modelled where a
  result can land exactly on a bound: in \<^verbatim>\<open>np.tanh\<close>, in the conversion of 64-bit
  integers to floating point with the division that follows it, and in
  \<^verbatim>\<open>round(x, 2)\<close>.
\<close>

datatype pyfloat = Num real | PInf | NInf | NaN

text \<open>The infinity with the sign of \<open>s\<close>; \<^verbatim>\<open>0 * inf\<close> and \<^verbatim>\<open>0 / 0\<close> are not-a-number.\<close>

definition signed_inf :: "real \<Rightarrow> pyfloat" where
  "signed_inf s = (if 0 < s then PInf else if s < 0 then NInf else NaN)"

fun pf_add :: "pyfloat \<Rightarrow> pyfloat \<Rightarrow> pyfloat" where
  "pf_add NaN y = NaN"
| "pf_add x NaN = NaN"
| "pf_add (Num a) (Num b) = Num (a + b)"
| "pf_add PInf NInf = NaN"
| "pf_add NInf PInf = NaN"
| "pf_add PInf y = PInf"
| "pf_add x PInf = PInf"
| "pf_add NInf y = NInf"
| "pf_add x NInf = NInf"

fun pf_neg :: "pyfloat \<Rightarrow> pyfloat" where
  "pf_neg (Num a) = Num (- a)"
| "pf_neg PInf = NInf"
| "pf_neg NInf = PInf"
| "pf_neg NaN = NaN"

fun pf_mul :: "pyfloat \<Rightarrow> pyfloat \<Rightarrow> pyfloat" where
  "pf_mul NaN y = NaN"
| "pf_mul x NaN = NaN"
| "pf_mul (Num a) (Num b) = Num (a * b)"
| "pf_mul (Num a) PInf = signed_inf a"
| "pf_mul (Num a) NInf = signed_inf (- a)"
| "pf_mul PInf (Num b) = signed_inf b"
| "pf_mul NInf (Num b) = signed_inf (- b)"
| "pf_mul PInf PInf = PInf"
| "pf_mul PInf NInf = NInf"
| "pf_mul NInf PInf = NInf"
| "pf_mul NInf NInf = PInf"

fun pf_div :: "pyfloat \<Rightarrow> pyfloat \<Rightarrow> pyfloat" where
  "pf_div NaN y = NaN"
| "pf_div x NaN = NaN"
| "pf_div (Num a) (Num b) = (if b = 0 then signed_inf a else Num (a / b))"
| "pf_div (Num a) PInf = Num 0"
| "pf_div (Num a) NInf = Num 0"
| "pf_div PInf (Num b) = (if 0 \<le> b then PInf else NInf)"
| "pf_div NInf (Num b) = (if 0 \<le> b then NInf else PInf)"
| "pf_div x y = NaN"

fun pf_abs :: "pyfloat \<Rightarrow> pyfloat" where
  "pf_abs (Num a) = Num \<bar>a\<bar>"
| "pf_abs PInf = PInf"
| "pf_abs NInf = PInf"
| "pf_abs NaN = NaN"

text \<open>The operators \<open>+\<close>, \<open>-\<close>, \<open>*\<close>, \<open>/\<close> and \<open>\<bar>_\<bar>\<close> on \<open>pyfloat\<close> are these functions.\<close>

instantiation pyfloat :: "{plus, uminus, minus, times, inverse, abs}"
begin

definition plus_pyfloat :: "pyfloat \<Rightarrow> pyfloat \<Rightarrow> pyfloat" where
  "plus_pyfloat = pf_add"

definition uminus_pyfloat :: "pyfloat \<Rightarrow> pyfloat" where
  "uminus_pyfloat = pf_neg"

definition minus_pyfloat :: "pyfloat \<Rightarrow> pyfloat \<Rightarrow> pyfloat" where
  "minus_pyfloat x y = pf_add x (pf_neg y)"

definition times_pyfloat :: "pyfloat \<Rightarrow> pyfloat \<Rightarrow> pyfloat" where
  "times_pyfloat = pf_mul"

definition divide_pyfloat :: "pyfloat \<Rightarrow> pyfloat \<Rightarrow> pyfloat" where
  "divide_pyfloat = pf_div"

definition inverse_pyfloat :: "pyfloat \<Rightarrow> pyfloat" where
  "inverse_pyfloat x = pf_div (Num 1) x"

definition abs_pyfloat :: "pyfloat \<Rightarrow> pyfloat" where
  "abs_pyfloat = pf_abs"

instance ..

end

text \<open>
  Rounding to the nearest integer, a tie going to the even neighbour (\<^verbatim>\<open>np.rint\<close>).
\<close>

definition rint :: "real \<Rightarrow> int" where
  "rint x =
     (let f = \<lfloor>x\<rfloor>
      in if x - of_int f < 1 / 2 then f
         else if 1 / 2 < x - of_int f then f + 1
         else if even f then f else f + 1)"

text \<open>
  Rounding to the nearest double-precision number, a tie going to the even significand.
  A double has a significand of 53 bits, and its exponent is at least \<open>-1022\<close>:
  \<open>double_ulp x\<close> is the distance of the doubles around \<open>x\<close>.
\<close>

definition double_ulp :: "real \<Rightarrow> real" where
  "double_ulp x = 2 powi (max \<lfloor>log 2 \<bar>x\<bar>\<rfloor> (- 1022) - 52)"

definition round_double :: "real \<Rightarrow> real" where
  "round_double x = (if x = 0 then 0 else of_int (rint (x / double_ulp x)) * double_ulp x)"

fun pf_round :: "pyfloat \<Rightarrow> pyfloat" where
  "pf_round (Num a) = Num (round_double a)"
| "pf_round x = x"

text \<open>
  \<^verbatim>\<open>np.tanh\<close>: the hyperbolic tangent rounded to double precision, with the values
  \<open>1\<close> and \<open>-1\<close> at the infinities.  The library's result may differ from the nearest
  double in the last place; like the nearest double it is never beyond \<open>1\<close> or \<open>-1\<close> and
  is exactly \<open>1\<close> or \<open>-1\<close> for large arguments.
\<close>

fun np_tanh :: "pyfloat \<Rightarrow> pyfloat" where
  "np_tanh (Num a) = Num (round_double (tanh a))"
| "np_tanh PInf = Num 1"
| "np_tanh NInf = Num (- 1)"
| "np_tanh NaN = NaN"

text \<open>The comparison \<^verbatim>\<open>x >= y\<close>: false as soon as one side is not-a-number.\<close>

fun py_ge :: "pyfloat \<Rightarrow> pyfloat \<Rightarrow> bool" where
  "py_ge NaN y = False"
| "py_ge x NaN = False"
| "py_ge (Num a) (Num b) = (b \<le> a)"
| "py_ge PInf y = True"
| "py_ge x NInf = True"
| "py_ge (Num a) PInf = False"
| "py_ge NInf y = False"

section \<open>The scoring model\<close>

text \<open>
  \<^verbatim>\<open>
  def score_model(implied_move, hist_move, skew, oi):
      underpricing = hist_move / (implied_move + 1e-6)
      tilt = 0.3*np.tanh(skew) + 0.2*np.tanh(oi)
      squeeze = 0.5 + tilt
      cascade = 0.5 - tilt
      return underpricing, squeeze, cascade
  \<close>
  The local \<^verbatim>\<open>tilt\<close> is a definition of its own, so that it can be spoken about.
\<close>

definition tilt :: "pyfloat \<Rightarrow> pyfloat \<Rightarrow> pyfloat" where
  "tilt skew oi = Num (3 / 10) * np_tanh skew + Num (2 / 10) * np_tanh oi"

definition score_model :: "pyfloat \<Rightarrow> pyfloat \<Rightarrow> pyfloat \<Rightarrow> pyfloat \<Rightarrow> pyfloat \<times> pyfloat \<times> pyfloat" where
  "score_model implied_move hist_move skew oi =
     (let underpricing = hist_move / (implied_move + Num (1 / 1000000));
          t = tilt skew oi;
          squeeze = Num (1 / 2) + t;
          cascade = Num (1 / 2) - t
      in (underpricing, squeeze, cascade))"

text \<open>The three components of the returned triple.\<close>

definition underpricing_of :: "pyfloat \<times> pyfloat \<times> pyfloat \<Rightarrow> pyfloat" where
  "underpricing_of s = fst s"

definition squeeze_of :: "pyfloat \<times> pyfloat \<times> pyfloat \<Rightarrow> pyfloat" where
  "squeeze_of s = fst (snd s)"

definition cascade_of :: "pyfloat \<times> pyfloat \<times> pyfloat \<Rightarrow> pyfloat" where
  "cascade_of s = snd (snd s)"

section \<open>Data of the market-data provider\<close>

type_synonym ticker = string

text \<open>A calendar date (\<^verbatim>\<open>datetime.date\<close>): year, month, day.\<close>

datatype date = Date nat nat nat

text \<open>
  One row of an option chain, with the four columns the program reads.  Strike, last price
  and implied volatility are taken as real numbers.  The open interest is a whole number,
  and its column, when no value is missing, is a column of 64-bit integers
  (\<^verbatim>\<open>int64\<close>), read as signed by \<open>sint\<close>.
\<close>

record contract =
  strike :: real
  lastPrice :: real
  impliedVolatility :: real
  openInterest :: "64 word"

text \<open>
  One side of an option chain (a data frame \<^verbatim>\<open>chain.calls\<close> or \<^verbatim>\<open>chain.puts\<close>):
  its rows in the order the provider returned them, indexed \<open>0, 1, \<dots>\<close>, and the column
  \<^verbatim>\<open>dist\<close>, which the provider does not supply and the program may add.
\<close>

record frame =
  contracts :: "contract list"
  dist_col :: "real list option"

text \<open>
  What \<^verbatim>\<open>stock.calendar\<close> and the reading of its earnings date can do in
  \<^verbatim>\<open>reports_today\<close>: the provider call raises; the calendar is \<^verbatim>\<open>None\<close>; it is
  empty; reading \<^verbatim>\<open>cal.loc["Earnings Date"][0].date()\<close> raises (a malformed calendar);
  or that expression yields a date.
\<close>

datatype earnings_calendar =
  Calendar_Raises
| Calendar_None
| Calendar_Empty
| Calendar_Malformed
| Calendar_Earnings date

text \<open>
  The provider, as the program queries it.  \<open>None\<close> stands for a call that raises:
  \<open>spot_1d\<close> is \<^verbatim>\<open>stock.history(period="1d")["Close"].iloc[-1]\<close>, \<open>options\<close> is
  \<^verbatim>\<open>stock.options\<close>, \<open>option_chain\<close> is \<^verbatim>\<open>stock.option_chain(expiry)\<close> with
  its two sides, and \<open>history_2y\<close> is the column of closes of
  \<^verbatim>\<open>stock.history(period="2y")\<close>.
\<close>

record provider =
  calendar :: "ticker \<Rightarrow> earnings_calendar"
  spot_1d :: "ticker \<Rightarrow> real option"
  options :: "ticker \<Rightarrow> string list option"
  option_chain :: "ticker \<Rightarrow> string \<Rightarrow> (frame \<times> frame) option"
  history_2y :: "ticker \<Rightarrow> real list option"

text \<open>The one exception that reaches the scan: pandas' \<^verbatim>\<open>idxmin\<close> on an empty column.\<close>

datatype error = ValueError

section \<open>Metric extractors\<close>

text \<open>
  \<^verbatim>\<open>
  def reports_today(ticker):
      try:
          stock = yf.Ticker(ticker)
          cal = stock.calendar
          if cal is None or cal.empty:
              return False
          earnings_date = cal.loc["Earnings Date"][0].date()
          return earnings_date == TODAY
      except:
          return False
  \<close>
\<close>

definition reports_today :: "provider \<Rightarrow> date \<Rightarrow> ticker \<Rightarrow> bool" where
  "reports_today prov today t =
     (case calendar prov t of
        Calendar_Raises \<Rightarrow> False
      | Calendar_None \<Rightarrow> False
      | Calendar_Empty \<Rightarrow> False
      | Calendar_Malformed \<Rightarrow> False
      | Calendar_Earnings earnings_date \<Rightarrow> earnings_date = today)"

text \<open>
  \<^verbatim>\<open>
  def get_options_data(ticker):
      try:
          stock = yf.Ticker(ticker)
          spot = stock.history(period="1d")["Close"].iloc[-1]
          expirations = stock.options
          if not expirations:
              return None
          expiry = expirations[0]
          chain = stock.option_chain(expiry)
          return spot, expiry, chain.calls, chain.puts
      except:
          return None
  \<close>
\<close>

definition get_options_data :: "provider \<Rightarrow> ticker \<Rightarrow> (real \<times> string \<times> frame \<times> frame) option" where
  "get_options_data prov t =
     (case spot_1d prov t of
        None \<Rightarrow> None
      | Some spot \<Rightarrow>
          (case options prov t of
             None \<Rightarrow> None
           | Some [] \<Rightarrow> None
           | Some (expiry # _) \<Rightarrow>
               (case option_chain prov t expiry of
                  None \<Rightarrow> None
                | Some (calls, puts) \<Rightarrow> Some (spot, expiry, calls, puts))))"

text \<open>
  \<^verbatim>\<open>Series.idxmin()\<close> on a column with the index \<open>0, 1, \<dots>\<close>: the position of the first
  occurrence of the least value; on an empty column it raises \<^verbatim>\<open>ValueError\<close>.
  \<open>first_min best_i best_v i xs\<close> scans the rest \<open>xs\<close> of the column from position \<open>i\<close>.
\<close>

fun first_min :: "nat \<Rightarrow> real \<Rightarrow> nat \<Rightarrow> real list \<Rightarrow> nat" where
  "first_min best_i best_v i [] = best_i"
| "first_min best_i best_v i (x # xs) =
     (if x < best_v then first_min i x (Suc i) xs else first_min best_i best_v (Suc i) xs)"

fun idxmin :: "real list \<Rightarrow> error + nat" where
  "idxmin [] = Inl ValueError"
| "idxmin (x # xs) = Inr (first_min 0 x 1 xs)"

text \<open>
  \<^verbatim>\<open>
  def implied_move(spot, calls, puts):
      calls["dist"] = abs(calls["strike"] - spot)
      puts["dist"] = abs(puts["strike"] - spot)
      atm_call = calls.loc[calls["dist"].idxmin()]
      atm_put = puts.loc[puts["dist"].idxmin()]
      return (atm_call["lastPrice"] + atm_put["lastPrice"]) / spot
  \<close>
  The two assignments write into the frames the caller passed, so the function returns,
  beside its result or the exception it raised, both frames as it leaves them.
\<close>

definition implied_move :: "real \<Rightarrow> frame \<Rightarrow> frame \<Rightarrow> (error + pyfloat) \<times> frame \<times> frame" where
  "implied_move spot calls puts =
     (let calls_dist = map (\<lambda>c. \<bar>strike c - spot\<bar>) (contracts calls);
          calls1 = calls\<lparr>dist_col := Some calls_dist\<rparr>;
          puts_dist = map (\<lambda>c. \<bar>strike c - spot\<bar>) (contracts puts);
          puts1 = puts\<lparr>dist_col := Some puts_dist\<rparr>
      in case idxmin calls_dist of
           Inl e \<Rightarrow> (Inl e, calls1, puts1)
         | Inr i \<Rightarrow>
             (case idxmin puts_dist of
                Inl e \<Rightarrow> (Inl e, calls1, puts1)
              | Inr j \<Rightarrow>
                  (let atm_call = contracts calls1 ! i;
                       atm_put = contracts puts1 ! j
                   in (Inr ((Num (lastPrice atm_call) + Num (lastPrice atm_put)) / Num spot),
                       calls1, puts1))))"

text \<open>
  \<^verbatim>\<open>Series.pct_change()\<close>: no value at the first position, then
  \<open>close\<^sub>i / close\<^sub>i\<^sub>-\<^sub>1 - 1\<close>.
\<close>

fun pct_change :: "real list \<Rightarrow> pyfloat list" where
  "pct_change [] = []"
| "pct_change (c # cs) = NaN # map (\<lambda>(prev, cur). Num cur / Num prev - Num 1) (zip (c # cs) cs)"

text \<open>
  \<^verbatim>\<open>Series.mean()\<close>: the mean of the values that are not not-a-number, and
  not-a-number when there is none.
\<close>

definition mean_skipna :: "pyfloat list \<Rightarrow> pyfloat" where
  "mean_skipna xs =
     (let vs = filter (\<lambda>x. x \<noteq> NaN) xs
      in if vs = [] then NaN else foldl (+) (Num 0) vs / Num (real (length vs)))"

text \<open>
  \<^verbatim>\<open>
  def hist_move(ticker):
      try:
          stock = yf.Ticker(ticker)
          df = stock.history(period="2y")
          df["ret"] = df["Close"].pct_change()
          return df["ret"].abs().mean()
      except:
          return np.nan
  \<close>
\<close>

definition hist_move :: "provider \<Rightarrow> ticker \<Rightarrow> pyfloat" where
  "hist_move prov t =
     (case history_2y prov t of
        None \<Rightarrow> NaN
      | Some closes \<Rightarrow> mean_skipna (map abs (pct_change closes)))"

text \<open>
  \<^verbatim>\<open>
  def skew_proxy(calls, puts):
      return puts["impliedVolatility"].mean() - calls["impliedVolatility"].mean()
  \<close>
\<close>

definition skew_proxy :: "frame \<Rightarrow> frame \<Rightarrow> pyfloat" where
  "skew_proxy calls puts =
     mean_skipna (map (\<lambda>c. Num (impliedVolatility c)) (contracts puts))
     - mean_skipna (map (\<lambda>c. Num (impliedVolatility c)) (contracts calls))"

text \<open>
  \<^verbatim>\<open>
  def oi_imbalance(calls, puts):
      call_oi = calls["openInterest"].sum()
      put_oi = puts["openInterest"].sum()
      return (call_oi - put_oi) / (call_oi + put_oi + 1)
  \<close>
  \<open>oi_sum\<close> is \<^verbatim>\<open>frame["openInterest"].sum()\<close>, a 64-bit integer, which is \<open>0\<close> on
  an empty frame.  The sum, the difference and the sum plus one are computed in 64-bit
  integers and wrap around.  The operator \<^verbatim>\<open>/\<close> on two such integers
  (\<^verbatim>\<open>np.true_divide\<close>) converts both to double precision, which rounds beyond
  \<open>2\<^sup>5\<^sup>3\<close>, and divides them as floating-point numbers.
\<close>

definition oi_sum :: "frame \<Rightarrow> 64 word" where
  "oi_sum f = sum_list (map openInterest (contracts f))"

definition int64_to_double :: "64 word \<Rightarrow> pyfloat" where
  "int64_to_double w = Num (round_double (real_of_int (sint w)))"

definition np_true_divide :: "64 word \<Rightarrow> 64 word \<Rightarrow> pyfloat" where
  "np_true_divide a b = pf_round (int64_to_double a / int64_to_double b)"

definition oi_imbalance :: "frame \<Rightarrow> frame \<Rightarrow> pyfloat" where
  "oi_imbalance calls puts =
     (let call_oi = oi_sum calls;
          put_oi = oi_sum puts
      in np_true_divide (call_oi - put_oi) (call_oi + put_oi + 1))"

section \<open>The scan engine\<close>

text \<open>
  A row of the result set.  \<^verbatim>\<open>round(x, 2)\<close> on a numpy float multiplies by
  \<open>100\<close>, rounds to the nearest integer (a tie going to the even neighbour) and divides
  by \<open>100\<close>, all in double precision; it leaves the special values as they are.
\<close>

record result_row =
  Ticker :: ticker
  Spot :: pyfloat
  Implied_Move_pct :: pyfloat
  Hist_Avg_Move_pct :: pyfloat
  Underpricing :: pyfloat
  Squeeze_Prob :: pyfloat
  Cascade_Prob :: pyfloat

fun round2 :: "pyfloat \<Rightarrow> pyfloat" where
  "round2 (Num a) = Num (round_double (of_int (rint (round_double (a * 100))) / 100))"
| "round2 x = x"

text \<open>
  The body of the loop, for one ticker and the list \<^verbatim>\<open>results\<close> so far:
  \<^verbatim>\<open>
  if reports_today(ticker):
      data = get_options_data(ticker)
      if data:
          spot, expiry, calls, puts = data
          im = implied_move(spot, calls, puts)
          hm = hist_move(ticker)
          skew = skew_proxy(calls, puts)
          oi = oi_imbalance(calls, puts)
          underpricing, squeeze, cascade = score_model(im, hm, skew, oi)
          if underpricing >= min_underpricing and (squeeze >= min_prob or cascade >= min_prob):
              results.append({"Ticker": ticker, "Spot": round(spot,2),
                  "Implied Move %": round(im*100,2), "Hist Avg Move %": round(hm*100,2),
                  "Underpricing": round(underpricing,2), "Squeeze Prob": round(squeeze,2),
                  "Cascade Prob": round(cascade,2)})
  time.sleep(0.3)
  \<close>
  An exception of \<^verbatim>\<open>implied_move\<close> is caught nowhere and ends the scan.  The frames
  that \<^verbatim>\<open>skew_proxy\<close> and \<^verbatim>\<open>oi_imbalance\<close> read are the ones \<^verbatim>\<open>implied_move\<close>
  has written to.  The pause between two tickers has no effect on the result.
\<close>

definition scan_ticker ::
  "provider \<Rightarrow> date \<Rightarrow> real \<Rightarrow> real \<Rightarrow> ticker \<Rightarrow> result_row list \<Rightarrow> error + result_row list" where
  "scan_ticker prov today min_underpricing min_prob t results =
     (if reports_today prov today t then
        (case get_options_data prov t of
           None \<Rightarrow> Inr results
         | Some (spot, expiry, calls, puts) \<Rightarrow>
             (case implied_move spot calls puts of
                (Inl e, calls1, puts1) \<Rightarrow> Inl e
              | (Inr im, calls1, puts1) \<Rightarrow>
                  (let hm = hist_move prov t;
                       skew = skew_proxy calls1 puts1;
                       oi = oi_imbalance calls1 puts1
                   in case score_model im hm skew oi of
                        (underpricing, squeeze, cascade) \<Rightarrow>
                          if py_ge underpricing (Num min_underpricing)
                             \<and> (py_ge squeeze (Num min_prob) \<or> py_ge cascade (Num min_prob))
                          then Inr (results @
                            [\<lparr>Ticker = t,
                              Spot = round2 (Num spot),
                              Implied_Move_pct = round2 (im * Num 100),
                              Hist_Avg_Move_pct = round2 (hm * Num 100),
                              Underpricing = round2 underpricing,
                              Squeeze_Prob = round2 squeeze,
                              Cascade_Prob = round2 cascade\<rparr>])
                          else Inr results)))
      else Inr results)"

text \<open>\<^verbatim>\<open>for ticker in UNIVERSE: ...\<close>, from the list \<^verbatim>\<open>results\<close> so far.\<close>

fun scan_loop ::
  "provider \<Rightarrow> date \<Rightarrow> real \<Rightarrow> real \<Rightarrow> ticker list \<Rightarrow> result_row list \<Rightarrow> error + result_row list" where
  "scan_loop prov today min_underpricing min_prob [] results = Inr results"
| "scan_loop prov today min_underpricing min_prob (t # ts) results =
     (case scan_ticker prov today min_underpricing min_prob t results of
        Inl e \<Rightarrow> Inl e
      | Inr results' \<Rightarrow> scan_loop prov today min_underpricing min_prob ts results')"

text \<open>
  One scan: \<^verbatim>\<open>UNIVERSE = get_sp500()[:max_symbols]\<close>, \<^verbatim>\<open>results = []\<close>, then the
  loop.  The value is the list \<^verbatim>\<open>results\<close> when the loop ends, in the order of the
  scan, or the exception that ended it.  The ordering of the table for display is done by
  \<^verbatim>\<open>DataFrame.sort_values\<close> of the pandas library and is not part of this model.
\<close>

definition scan ::
  "provider \<Rightarrow> date \<Rightarrow> real \<Rightarrow> real \<Rightarrow> nat \<Rightarrow> ticker list \<Rightarrow> error + result_row list" where
  "scan prov today min_underpricing min_prob max_symbols sp500 =
     scan_loop prov today min_underpricing min_prob (take max_symbols sp500) []"

text \<open>The tickers of the result set; a scan that ended by an exception has none.\<close>

fun tickers_of :: "error + result_row list \<Rightarrow> ticker set" where
  "tickers_of (Inl e) = {}"
| "tickers_of (Inr rows) = set (map Ticker rows)"

section \<open>The selection the specification describes\<close>

text \<open>
  \<open>first_least ds i\<close>: \<open>i\<close> is the first position of the least value of the column
  \<open>ds\<close>.
\<close>

definition first_least :: "real list \<Rightarrow> nat \<Rightarrow> bool" where
  "first_least ds i \<longleftrightarrow>
     i < length ds \<and> (\<forall>k < length ds. ds ! i \<le> ds ! k) \<and> (\<forall>k < i. ds ! i < ds ! k)"

text \<open>
  The at-the-money row in the specification's words: row \<open>i\<close> of the side \<open>cs\<close> has
  the minimum absolute distance between strike and spot, and every row before it is
  strictly farther (of several nearest rows, the one that comes first in the provider's
  order).
\<close>

definition spec_atm_index :: "real \<Rightarrow> contract list \<Rightarrow> nat \<Rightarrow> bool" where
  "spec_atm_index spot cs i \<longleftrightarrow>
     i < length cs
     \<and> (\<forall>k < length cs. \<bar>strike (cs ! i) - spot\<bar> \<le> \<bar>strike (cs ! k) - spot\<bar>)
     \<and> (\<forall>k < i. \<bar>strike (cs ! i) - spot\<bar> < \<bar>strike (cs ! k) - spot\<bar>)"

section \<open>A concrete market\<close>

text \<open>
  A provider for four tickers, all with spot price \<open>100\<close> and the same option chain except
  \<open>NOCALLS\<close>, whose call side is empty: \<open>ABC\<close> reports today; \<open>LATE\<close> reports
  tomorrow; the price history of \<open>NOHIST\<close> cannot be fetched; every other ticker has a
  calendar lookup that raises.  At the strikes nearest to the spot the call costs \<open>3\<close>
  and the put \<open>2\<close>; the history has a single daily return of seven percent.
\<close>

definition today0 :: date where
  "today0 = Date 2024 5 1"

definition demo_calls :: frame where
  "demo_calls =
     \<lparr>contracts =
        [\<lparr>strike = 95, lastPrice = 13 / 2, impliedVolatility = 3 / 10, openInterest = 120\<rparr>,
         \<lparr>strike = 100, lastPrice = 3, impliedVolatility = 1 / 4, openInterest = 300\<rparr>,
         \<lparr>strike = 105, lastPrice = 1, impliedVolatility = 1 / 5, openInterest = 80\<rparr>],
      dist_col = None\<rparr>"

definition demo_puts :: frame where
  "demo_puts =
     \<lparr>contracts =
        [\<lparr>strike = 95, lastPrice = 1 / 2, impliedVolatility = 1 / 5, openInterest = 200\<rparr>,
         \<lparr>strike = 100, lastPrice = 2, impliedVolatility = 1 / 4, openInterest = 250\<rparr>,
         \<lparr>strike = 105, lastPrice = 6, impliedVolatility = 3 / 10, openInterest = 50\<rparr>],
      dist_col = None\<rparr>"

definition no_contracts :: frame where
  "no_contracts = \<lparr>contracts = [], dist_col = None\<rparr>"

definition demo_provider :: provider where
  "demo_provider =
     \<lparr>calendar = (\<lambda>t. if t = ''ABC'' \<or> t = ''NOHIST'' \<or> t = ''NOCALLS''
                       then Calendar_Earnings (Date 2024 5 1)
                       else if t = ''LATE'' then Calendar_Earnings (Date 2024 5 2)
                       else Calendar_Raises),
      spot_1d = (\<lambda>t. Some 100),
      options = (\<lambda>t. Some [''2024-05-03'', ''2024-05-10'']),
      option_chain = (\<lambda>t expiry. if t = ''NOCALLS'' then Some (no_contracts, demo_puts)
                                  else Some (demo_calls, demo_puts)),
      history_2y = (\<lambda>t. if t = ''NOHIST'' then None else Some [100, 107])\<rparr>"

text \<open>The row the scan builds for \<open>ABC\<close>.\<close>

definition abc_row :: result_row where
  "abc_row =
     \<lparr>Ticker = ''ABC'', Spot = round2 (Num 100), Implied_Move_pct = round2 (Num 5),
      Hist_Avg_Move_pct = round2 (Num 7), Underpricing = round2 (Num (70000 / 50001)),
      Squeeze_Prob = round2 (Num (1 / 2)), Cascade_Prob = round2 (Num (1 / 2))\<rparr>"

text \<open>
  Call sides whose one contract has an open interest of \<open>2\<^sup>6\<^sup>3 - 1\<close>, the largest
  64-bit integer, and of \<open>2\<^sup>5\<^sup>3\<close>.
\<close>

definition max_oi_calls :: frame where
  "max_oi_calls =
     \<lparr>contracts =
        [\<lparr>strike = 100, lastPrice = 3, impliedVolatility = 1 / 4,
          openInterest = 9223372036854775807\<rparr>],
      dist_col = None\<rparr>"

definition big_oi_calls :: frame where
  "big_oi_calls =
     \<lparr>contracts =
        [\<lparr>strike = 100, lastPrice = 3, impliedVolatility = 1 / 4,
          openInterest = 9007199254740992\<rparr>],
      dist_col = None\<rparr>"

section \<open>Rounding to double precision\<close>

subsection \<open>Rounding to the nearest integer\<close>

lemma rint_of_int [simp]: "rint (of_int k) = k"
  by (simp add: rint_def)

lemma rint_le: "y \<le> of_int n \<Longrightarrow> rint y \<le> n"
proof -
  assume a: "y \<le> of_int n"
  then have f: "\<lfloor>y\<rfloor> \<le> n" by (simp add: floor_le_iff)
  show ?thesis
  proof (cases "\<lfloor>y\<rfloor> = n")
    case True
    with a have "y = of_int n" by linarith
    then show ?thesis by simp
  next
    case False
    with f have "\<lfloor>y\<rfloor> + 1 \<le> n" by simp
    moreover have "rint y \<le> \<lfloor>y\<rfloor> + 1" by (simp add: rint_def Let_def)
    ultimately show ?thesis by linarith
  qed
qed

lemma rint_ge: "of_int n \<le> y \<Longrightarrow> n \<le> rint y"
proof -
  assume a: "of_int n \<le> y"
  then have "n \<le> \<lfloor>y\<rfloor>" by (simp add: le_floor_iff)
  moreover have "\<lfloor>y\<rfloor> \<le> rint y" by (simp add: rint_def Let_def)
  ultimately show ?thesis by linarith
qed

lemma rint_error: "\<bar>of_int (rint y) - y\<bar> \<le> 1 / 2"
  by (simp add: rint_def Let_def)

subsection \<open>Rounding to the nearest double\<close>

lemma two_powr_int: "(2::real) powr real_of_int k = 2 powi k"
  by (rule powr_real_of_int') simp_all

lemma binade:
  assumes "x \<noteq> 0"
  shows "2 powi \<lfloor>log 2 \<bar>x\<bar>\<rfloor> \<le> \<bar>x\<bar>" and "\<bar>x\<bar> < 2 powi (\<lfloor>log 2 \<bar>x\<bar>\<rfloor> + 1)"
proof -
  from assms have p: "0 < \<bar>x\<bar>" by simp
  have "2 powr real_of_int \<lfloor>log 2 \<bar>x\<bar>\<rfloor> \<le> \<bar>x\<bar>
      \<and> \<bar>x\<bar> < 2 powr real_of_int (\<lfloor>log 2 \<bar>x\<bar>\<rfloor> + 1)"
    by (rule iffD1 [OF floor_log_eq_powr_iff [OF p]]) simp_all
  then show "2 powi \<lfloor>log 2 \<bar>x\<bar>\<rfloor> \<le> \<bar>x\<bar>" and "\<bar>x\<bar> < 2 powi (\<lfloor>log 2 \<bar>x\<bar>\<rfloor> + 1)"
    by (simp_all only: two_powr_int)
qed

lemma floor_log2_eq:
  assumes "2 powi k \<le> \<bar>x\<bar>" and "\<bar>x\<bar> < 2 powi (k + 1)"
  shows "\<lfloor>log 2 \<bar>x\<bar>\<rfloor> = k"
proof -
  have "(0::real) < 2 powi k" by simp
  with assms(1) have p: "0 < \<bar>x\<bar>" by linarith
  from assms have "2 powr real_of_int k \<le> \<bar>x\<bar> \<and> \<bar>x\<bar> < 2 powr real_of_int (k + 1)"
    by (simp only: two_powr_int)
  then show ?thesis
    by (rule iffD2 [OF floor_log_eq_powr_iff [OF p], rotated]) simp
qed

lemma double_ulp_pos [simp]: "0 < double_ulp x"
  by (simp add: double_ulp_def)

lemma double_ulp_nonzero [simp]: "double_ulp x \<noteq> 0"
  using double_ulp_pos [of x] by linarith

lemma double_ulp_eq:
  assumes "2 powi k \<le> \<bar>x\<bar>" and "\<bar>x\<bar> < 2 powi (k + 1)" and "- 1022 \<le> k"
  shows "double_ulp x = 2 powi (k - 52)"
  using floor_log2_eq [OF assms(1,2)] assms(3) by (simp add: double_ulp_def max_def)

lemma exponent_le_0:
  assumes "x \<noteq> 0" and "\<bar>x\<bar> \<le> 1"
  shows "\<lfloor>log 2 \<bar>x\<bar>\<rfloor> \<le> 0"
proof -
  from assms have "log 2 \<bar>x\<bar> \<le> 0" by simp
  then show ?thesis by (simp add: floor_le_iff)
qed

lemma exponent_less_0:
  assumes "x \<noteq> 0" and "\<bar>x\<bar> < 1"
  shows "\<lfloor>log 2 \<bar>x\<bar>\<rfloor> \<le> - 1"
proof -
  from assms have "log 2 \<bar>x\<bar> < 0" by simp
  then have "\<lfloor>log 2 \<bar>x\<bar>\<rfloor> < 0" by (subst floor_less_iff) simp
  then show ?thesis by linarith
qed

text \<open>The unit in the last place of a number of magnitude at most one.\<close>

lemma double_ulp_small:
  assumes "x \<noteq> 0" and "\<bar>x\<bar> \<le> 1"
  obtains n where "52 \<le> n" and "double_ulp x = 1 / 2 ^ n" and "\<bar>x\<bar> < 1 \<Longrightarrow> 53 \<le> n"
proof -
  let ?k = "max \<lfloor>log 2 \<bar>x\<bar>\<rfloor> (- 1022)"
  have k0: "?k \<le> 0" using exponent_le_0 [OF assms] by simp
  have k1: "?k \<le> - 1" if "\<bar>x\<bar> < 1" using exponent_less_0 [OF assms(1) that] by simp
  let ?n = "nat (52 - ?k)"
  have e: "?k - 52 = - int ?n" using k0 by simp
  have "double_ulp x = 2 powi (- int ?n)" unfolding double_ulp_def e ..
  also have "\<dots> = inverse (2 powi int ?n)" by (simp only: power_int_minus)
  also have "\<dots> = 1 / 2 ^ ?n" by (simp only: power_int_of_nat inverse_eq_divide)
  finally have u: "double_ulp x = 1 / 2 ^ ?n" .
  have "52 \<le> ?n" using k0 by linarith
  moreover have "53 \<le> ?n" if "\<bar>x\<bar> < 1" using k1 [OF that] by linarith
  ultimately show ?thesis using u that by blast
qed

lemma round_grid_le:
  assumes "0 < u" and "B / u = of_int m" and "x \<le> B"
  shows "of_int (rint (x / u)) * u \<le> B"
proof -
  from assms have "x / u \<le> of_int m" by (metis divide_right_mono less_imp_le)
  then have "rint (x / u) \<le> m" by (rule rint_le)
  then have "of_int (rint (x / u)) * u \<le> of_int m * u"
    using assms(1) by (simp add: mult_right_mono)
  also have "of_int m * u = B" using assms(1,2) by (simp add: field_simps)
  finally show ?thesis .
qed

lemma round_grid_ge:
  assumes "0 < u" and "B / u = of_int m" and "- B \<le> x"
  shows "- B \<le> of_int (rint (x / u)) * u"
proof -
  from assms have "- (B / u) \<le> x / u" by (simp add: field_simps)
  with assms(2) have "of_int (- m) \<le> x / u" by simp
  then have "- m \<le> rint (x / u)" by (rule rint_ge)
  then have "of_int (- m) * u \<le> of_int (rint (x / u)) * u"
    using assms(1) by (simp add: mult_right_mono del: of_int_minus)
  moreover have "of_int (- m) * u = - B" using assms(1,2) by (simp add: field_simps)
  ultimately show ?thesis by simp
qed

lemma round_double_abs_le:
  assumes "\<bar>x\<bar> \<le> B" and "B / double_ulp x = of_int m"
  shows "\<bar>round_double x\<bar> \<le> B"
proof (cases "x = 0")
  case True
  with assms(1) show ?thesis by (simp add: round_double_def)
next
  case False
  from assms(1) have "x \<le> B" "- B \<le> x" by linarith+
  from round_grid_le [OF double_ulp_pos assms(2) this(1)]
    round_grid_ge [OF double_ulp_pos assms(2) this(2)] False
  show ?thesis by (simp add: round_double_def abs_le_iff) 
qed

lemma round_double_le_1:
  assumes "\<bar>x\<bar> \<le> 1"
  shows "\<bar>round_double x\<bar> \<le> 1"
proof (cases "x = 0")
  case True
  then show ?thesis by (simp add: round_double_def)
next
  case False
  from double_ulp_small [OF False assms] obtain n where "double_ulp x = 1 / 2 ^ n" by blast
  then have "1 / double_ulp x = of_int (2 ^ n)" by simp
  from round_double_abs_le [OF assms this] show ?thesis .
qed

lemma round_double_below_1:
  assumes "\<bar>x\<bar> \<le> 1 - 1 / 2 ^ 53"
  shows "\<bar>round_double x\<bar> \<le> 1 - 1 / 2 ^ 53"
proof (cases "x = 0")
  case True
  then show ?thesis by (simp add: round_double_def)
next
  case False
  from assms have lt: "\<bar>x\<bar> < 1" and le: "\<bar>x\<bar> \<le> 1" by simp_all
  from double_ulp_small [OF False le] lt obtain n where n: "53 \<le> n"
    and u: "double_ulp x = 1 / 2 ^ n" by blast
  from n obtain d where d: "n = 53 + d" using le_Suc_ex by blast
  have "(1 - 1 / 2 ^ 53) / double_ulp x = (2 ^ 53 - 1) * 2 ^ d"
    unfolding u d by (simp add: power_add field_simps)
  also have "\<dots> = of_int ((2 ^ 53 - 1) * 2 ^ d)" by simp
  finally have "(1 - 1 / 2 ^ 53) / double_ulp x = of_int ((2 ^ 53 - 1) * 2 ^ d)" .
  from round_double_abs_le [OF assms this] show ?thesis .
qed

lemma round_double_error_small:
  assumes "\<bar>x\<bar> < 1"
  shows "\<bar>round_double x - x\<bar> \<le> 1 / 2 ^ 54"
proof (cases "x = 0")
  case True
  then show ?thesis by (simp add: round_double_def)
next
  case False
  from assms have le: "\<bar>x\<bar> \<le> 1" by simp
  from double_ulp_small [OF False le] assms obtain n where n: "53 \<le> n"
    and u: "double_ulp x = 1 / 2 ^ n" by blast
  let ?u = "double_ulp x"
  have "round_double x - x = (of_int (rint (x / ?u)) - x / ?u) * ?u"
    using False by (simp add: round_double_def field_simps)
  moreover have "\<bar>?u\<bar> = ?u" using double_ulp_pos [of x] by linarith
  ultimately have "\<bar>round_double x - x\<bar> = \<bar>of_int (rint (x / ?u)) - x / ?u\<bar> * ?u"
    by (simp only: abs_mult)
  also have "\<dots> \<le> 1 / 2 * ?u"
    using rint_error [of "x / ?u"] by (simp add: mult_right_mono)
  also have "\<dots> \<le> 1 / 2 * (1 / 2 ^ 53)"
  proof -
    have "(2::real) ^ 53 \<le> 2 ^ n" by (rule power_increasing [OF n]) simp
    then have "1 / (2::real) ^ n \<le> 1 / 2 ^ 53" by (simp add: frac_le)
    with u show ?thesis by simp
  qed
  finally show ?thesis by simp
qed

lemma round_double_exact:
  assumes "x / double_ulp x = of_int m"
  shows "round_double x = x"
proof -
  have "of_int (rint (x / double_ulp x)) * double_ulp x = x"
    unfolding assms rint_of_int using assms by (simp add: field_simps)
  then show ?thesis by (simp add: round_double_def)
qed

lemma round_double_0 [simp]: "round_double 0 = 0"
  by (simp add: round_double_def)

lemma round_double_eval:
  assumes "2 powi k \<le> \<bar>x\<bar>" and "\<bar>x\<bar> < 2 powi (k + 1)" and "- 1022 \<le> k"
  shows "round_double x = of_int (rint (x / 2 powi (k - 52))) * 2 powi (k - 52)"
proof -
  have "(0::real) < 2 powi k" by simp
  with assms(1) have "0 < \<bar>x\<bar>" by linarith
  then have "x \<noteq> 0" by auto
  then show ?thesis by (simp add: round_double_def double_ulp_eq [OF assms])
qed

subsection \<open>Doubles that the program meets\<close>

lemma rint_up:
  assumes "of_int z + 1 / 2 < y" and "y < of_int z + 1"
  shows "rint y = z + 1"
proof -
  have "\<lfloor>y\<rfloor> = z" using assms by (intro floor_unique) linarith+
  with assms show ?thesis by (simp add: rint_def Let_def)
qed

lemma round_double_near_1:
  assumes "1 - 1 / 2 ^ 54 < x" and "x < 1"
  shows "round_double x = 1"
proof -
  have a: "2 powi (- 1) \<le> \<bar>x\<bar>" "\<bar>x\<bar> < 2 powi (- 1 + 1)" using assms by simp_all
  have u: "(2::real) powi (- 1 - 52) = 1 / 2 ^ 53"
    by (simp add: power_int_minus field_simps)
  have "rint (x / (1 / 2 ^ 53)) = (2 ^ 53 - 1) + 1"
    by (rule rint_up) (use assms in simp_all)
  then have "rint (x / (1 / 2 ^ 53)) = 2 ^ 53" by simp
  with round_double_eval [OF a] u show ?thesis by simp
qed

lemma exp_40_lower: "(13 / 8) ^ 80 \<le> exp (40::real)"
proof -
  have "1 + (1 / 2) + (1 / 2)\<^sup>2 / 2 \<le> exp (1 / 2 :: real)"
    by (rule exp_lower_Taylor_quadratic) simp
  then have "13 / 8 \<le> exp (1 / 2 :: real)" by (simp add: power2_eq_square)
  then have "(13 / 8) ^ 80 \<le> exp (1 / 2 :: real) ^ 80" by (intro power_mono) simp_all
  also have "exp (1 / 2 :: real) ^ 80 = exp (of_nat 80 * (1 / 2))" by (rule exp_of_nat_mult [symmetric])
  also have "\<dots> = exp 40" by simp
  finally show ?thesis .
qed

lemma tanh_20_near_1: "1 - 1 / 2 ^ 54 < tanh (20::real)"
proof -
  let ?t = "exp (- 40 :: real)"
  have t: "?t = 1 / exp 40" by (simp add: exp_minus inverse_eq_divide)
  have "(2::real) ^ 55 * 8 ^ 80 < 13 ^ 80" by simp
  then have "(2::real) ^ 55 < 13 ^ 80 / 8 ^ 80" by (simp only: pos_less_divide_eq zero_less_power zero_less_numeral)
  then have "(2::real) ^ 55 < (13 / 8) ^ 80" by (simp only: power_divide)
  with exp_40_lower have "(2::real) ^ 55 < exp 40" by linarith
  then have small: "?t < 1 / 2 ^ 55" unfolding t by (simp add: frac_less2)
  have pos: "0 < ?t" by simp
  have "tanh (20::real) = (1 - ?t) / (1 + ?t)" using tanh_real_altdef [of 20] by simp
  moreover have "1 - 1 / 2 ^ 54 < (1 - ?t) / (1 + ?t)"
  proof -
    have "(1 - 1 / 2 ^ 54) * (1 + ?t) < 1 - ?t" using small pos by (simp add: field_simps)
    moreover have "0 < 1 + ?t" using pos by linarith
    ultimately show ?thesis by (simp only: pos_less_divide_eq)
  qed
  ultimately show ?thesis by simp
qed

lemma round_double_tanh_20: "round_double (tanh 20) = 1"
  by (rule round_double_near_1 [OF tanh_20_near_1 tanh_real_lt_1])

lemma round_double_tanh_le_1: "\<bar>round_double (tanh (x::real))\<bar> \<le> 1"
proof -
  have "\<bar>tanh x\<bar> \<le> 1" using tanh_real_lt_1 [of x] tanh_real_gt_neg1 [of x] by linarith
  then show ?thesis by (rule round_double_le_1)
qed

lemma round_double_big: "round_double (2 ^ 53 + 1) = 2 ^ 53"
proof -
  have a: "2 powi 53 \<le> \<bar>2 ^ 53 + 1 :: real\<bar>" "\<bar>2 ^ 53 + 1 :: real\<bar> < 2 powi (53 + 1)" by simp_all
  from round_double_eval [OF a] show ?thesis by (simp add: rint_def)
qed

lemma round_double_of_int:
  assumes "\<bar>n\<bar> \<le> 2 ^ 53"
  shows "round_double (of_int n) = of_int n"
proof (cases "n = 0")
  case True
  then show ?thesis by simp
next
  case False
  let ?x = "real_of_int n"
  let ?e = "\<lfloor>log 2 \<bar>?x\<bar>\<rfloor>"
  from False have x1: "1 \<le> \<bar>?x\<bar>" by (simp add: abs_if) 
  then have e0: "0 \<le> ?e" by simp
  from assms have xb: "\<bar>?x\<bar> \<le> 2 ^ 53"
    by (metis of_int_abs of_int_le_iff of_int_numeral of_int_power)
  have u: "double_ulp ?x = 2 powi (?e - 52)" using e0 by (simp add: double_ulp_def max_def)
  from False have nz: "?x \<noteq> 0" by simp
  note b = binade [OF nz]
  have "\<exists>m. ?x / double_ulp ?x = of_int m"
  proof (cases "?e \<le> 52")
    case True
    let ?d = "nat (52 - ?e)"
    have e: "?e - 52 = - int ?d" using True by simp
    have "double_ulp ?x = inverse (2 powi int ?d)" unfolding u e by (simp only: power_int_minus)
    then have "double_ulp ?x = 1 / 2 ^ ?d" by (simp only: power_int_of_nat inverse_eq_divide)
    then have "?x / double_ulp ?x = of_int (n * 2 ^ ?d)" by simp
    then show ?thesis ..
  next
    case False
    have "2 powi ?e \<le> (2::real) powi 53" using b(1) xb by simp
    then have "?e \<le> 53" by (rule power_int_le_imp_le_exp [rotated]) simp_all
    with False have e53: "?e = 53" by linarith
    with b(1) xb have "\<bar>?x\<bar> = 2 ^ 53" by simp
    then have "?x = 2 ^ 53 \<or> ?x = - (2 ^ 53)" by linarith
    moreover have "double_ulp ?x = 2" using u e53 by simp
    ultimately have "?x / double_ulp ?x = of_int (2 ^ 52) \<or> ?x / double_ulp ?x = of_int (- (2 ^ 52))"
      by auto
    then show ?thesis by blast
  qed
  then obtain m where "?x / double_ulp ?x = of_int m" ..
  then show ?thesis by (rule round_double_exact)
qed

text \<open>The largest and the least 64-bit integer in double precision.\<close>

lemma round_double_max_int64: "round_double 9223372036854775807 = 2 ^ 63"
proof -
  let ?x = "9223372036854775807 :: real"
  have a: "2 powi 62 \<le> \<bar>?x\<bar>" "\<bar>?x\<bar> < 2 powi (62 + 1)" by simp_all
  from round_double_eval [OF a] show ?thesis by (simp add: rint_def)
qed

lemma round_double_min_int64: "round_double (- (2 ^ 63)) = - (2 ^ 63)"
proof -
  let ?x = "- (2 ^ 63) :: real"
  have a: "2 powi 63 \<le> \<bar>?x\<bar>" "\<bar>?x\<bar> < 2 powi (63 + 1)" by simp_all
  from round_double_eval [OF a] show ?thesis by (simp add: rint_def)
qed

text \<open>
  The double nearest to \<open>0.295\<close> is below it, yet its product with \<open>100\<close> rounds to
  \<open>29.5\<close>, and \<^verbatim>\<open>round(x, 2)\<close> gives the double nearest to \<open>0.3\<close>.
\<close>

lemma round_double_295: "round_double (5314247560297185 / 2 ^ 54 * 100) = 59 / 2"
proof -
  let ?x = "5314247560297185 / 2 ^ 54 * 100 :: real"
  have a: "2 powi 4 \<le> \<bar>?x\<bar>" "\<bar>?x\<bar> < 2 powi (4 + 1)" by simp_all
  from round_double_eval [OF a] show ?thesis by (simp add: rint_def power_int_minus)
qed

lemma round2_numpy_example:
  "round2 (Num (5314247560297185 / 2 ^ 54)) = Num (round_double (3 / 10))"
proof -
  have r: "rint (59 / 2) = 30" by (simp add: rint_def)
  have "round2 (Num (5314247560297185 / 2 ^ 54))
      = Num (round_double (of_int (rint (round_double (5314247560297185 / 2 ^ 54 * 100))) / 100))"
    by (simp only: round2.simps)
  also have "\<dots> = Num (round_double (of_int 30 / 100))"
    by (simp only: round_double_295 r)
  also have "\<dots> = Num (round_double (3 / 10))" by simp
  finally show ?thesis .
qed

text \<open>The rounded quotient of a numerator smaller than its denominator.\<close>

lemma round_double_quotient:
  fixes N D :: real
  assumes "0 < D" and "D \<le> 2 ^ 53" and "\<bar>N\<bar> \<le> D - 1"
  shows "\<bar>round_double (N / D) - N / D\<bar> \<le> 1 / 2 ^ 54
    \<and> - 1 < round_double (N / D) \<and> round_double (N / D) < 1"
proof -
  define q where "q = N / D"
  have eps: "(0::real) < 1 / 2 ^ 53" by simp
  have "\<bar>q\<bar> = \<bar>N\<bar> / D" using assms(1) by (simp add: q_def)
  also have "\<dots> \<le> (D - 1) / D" using assms(1,3) by (intro divide_right_mono) simp_all
  also have "\<dots> = 1 - 1 / D" using assms(1) by (simp add: field_simps)
  also have "\<dots> \<le> 1 - 1 / 2 ^ 53"
  proof -
    have "1 / 2 ^ 53 \<le> 1 / D" using assms(1,2) by (intro frac_le) simp_all
    then show ?thesis by linarith
  qed
  finally have qb: "\<bar>q\<bar> \<le> 1 - 1 / 2 ^ 53" .
  then have rb: "\<bar>round_double q\<bar> \<le> 1 - 1 / 2 ^ 53" by (rule round_double_below_1)
  from qb eps have "\<bar>q\<bar> < 1" by linarith
  then have "\<bar>round_double q - q\<bar> \<le> 1 / 2 ^ 54" by (rule round_double_error_small)
  moreover from rb eps have "- 1 < round_double q" "round_double q < 1" by linarith+
  ultimately show ?thesis unfolding q_def by blast
qed

subsection \<open>Sums and differences of 64-bit integers\<close>

lemma sint_sub_nonneg:
  fixes c p :: "64 word"
  assumes "0 \<le> sint c" and "0 \<le> sint p"
  shows "sint (c - p) = sint c - sint p"
proof -
  have "sint c < 2 ^ 63" "sint p < 2 ^ 63" using sint_lt [of c] sint_lt [of p] by simp_all
  with assms show ?thesis
    by (simp add: sint_word_ariths signed_take_bit_int_eq_self)
qed

lemma sint_sum_small:
  fixes c p :: "64 word"
  assumes "0 \<le> sint c" and "0 \<le> sint p" and "sint c + sint p < 2 ^ 53"
  shows "sint (c + p + 1) = sint c + sint p + 1"
proof -
  from assms have "sint (c + p) = sint c + sint p"
    by (simp add: sint_word_ariths signed_take_bit_int_eq_self)
  moreover from assms this have "sint (c + p + 1) = sint (c + p) + 1"
    by (simp add: sint_word_ariths signed_take_bit_int_eq_self)
  ultimately show ?thesis by simp
qed

section \<open>Properties of the scoring model\<close>

lemmas pf_ops = plus_pyfloat_def uminus_pyfloat_def minus_pyfloat_def times_pyfloat_def
  divide_pyfloat_def abs_pyfloat_def

lemma tilt_Num:
  "tilt (Num sk) (Num oi)
     = Num (3 / 10 * round_double (tanh sk) + 2 / 10 * round_double (tanh oi))"
  by (simp add: tilt_def pf_ops)

lemma tilt_bound:
  fixes sk oi :: real
  shows "\<bar>3 / 10 * round_double (tanh sk) + 2 / 10 * round_double (tanh oi)\<bar> \<le> 1 / 2"
  using round_double_tanh_le_1 [of sk] round_double_tanh_le_1 [of oi] by linarith


text \<open>
  A skew that is not-a-number, which is no valid metric, makes both probabilities
  not-a-number.
\<close>

lemma score_model_nan_skew:
  "squeeze_of (score_model im hm NaN imb) = NaN \<and> cascade_of (score_model im hm NaN imb) = NaN"
  by (simp add: score_model_def squeeze_of_def cascade_of_def tilt_def pf_ops Let_def)



text \<open>
  Claim C8, as the program has it.  For every real skew and imbalance the tilt
  \<open>0.3 * tanh skew + 0.2 * tanh imbalance\<close> is a number of absolute value at most
  \<open>0.5\<close>, and the squeeze and cascade probabilities, which are not clamped, are numbers
  in \<open>[0, 1]\<close>.
\<close>

theorem tilt_at_most_half:
  "\<exists>t sq ca. tilt (Num sk) (Num oi) = Num t \<and> \<bar>t\<bar> \<le> 1 / 2
     \<and> squeeze_of (score_model im hm (Num sk) (Num oi)) = Num sq \<and> 0 \<le> sq \<and> sq \<le> 1
     \<and> cascade_of (score_model im hm (Num sk) (Num oi)) = Num ca \<and> 0 \<le> ca \<and> ca \<le> 1"
proof -
  let ?t = "3 / 10 * round_double (tanh sk) + 2 / 10 * round_double (tanh oi)"
  have b: "\<bar>?t\<bar> \<le> 1 / 2" by (rule tilt_bound)
  have sq: "squeeze_of (score_model im hm (Num sk) (Num oi)) = Num (1 / 2 + ?t)"
    by (simp add: score_model_def squeeze_of_def tilt_Num pf_ops Let_def)
  have ca: "cascade_of (score_model im hm (Num sk) (Num oi)) = Num (1 / 2 - ?t)"
    by (simp add: score_model_def cascade_of_def tilt_Num pf_ops Let_def)
  from b have "0 \<le> 1 / 2 + ?t" "1 / 2 + ?t \<le> 1" "0 \<le> 1 / 2 - ?t" "1 / 2 - ?t \<le> 1"
    by linarith+
  with b sq ca tilt_Num [of sk oi] show ?thesis by blast
qed

text \<open>
  Claim C8, as it is written, fails: the bound is not strict.  In double precision
  \<open>tanh 20\<close> is exactly \<open>1\<close>, so at skew \<open>20\<close> and imbalance \<open>20\<close> the tilt is exactly
  \<open>0.5\<close>, squeeze is \<open>1\<close> and cascade is \<open>0\<close>.
\<close>

theorem tilt_reaches_half:
  "tilt (Num 20) (Num 20) = Num (1 / 2)
   \<and> squeeze_of (score_model (Num (5 / 100)) (Num (7 / 100)) (Num 20) (Num 20)) = Num 1
   \<and> cascade_of (score_model (Num (5 / 100)) (Num (7 / 100)) (Num 20) (Num 20)) = Num 0"
  by (simp add: score_model_def squeeze_of_def cascade_of_def tilt_Num round_double_tanh_20
      pf_ops Let_def)

section \<open>Properties of the metric extractors\<close>

lemma oi_sum_demo:
  "oi_sum demo_calls = 500" "oi_sum demo_puts = 500" "oi_sum no_contracts = 0"
  "oi_sum big_oi_calls = 9007199254740992"
  by (simp_all add: oi_sum_def demo_calls_def demo_puts_def no_contracts_def big_oi_calls_def)

lemma int64_to_double_exact:
  assumes "\<bar>sint w\<bar> \<le> 2 ^ 53"
  shows "int64_to_double w = Num (real_of_int (sint w))"
  using round_double_of_int [OF assms] by (simp add: int64_to_double_def)

text \<open>
  Claim C6, as the program has it.  For all frames whose total call and total put open
  interest are non-negative and together below \<open>2\<^sup>5\<^sup>3\<close>, \<open>oi_imbalance\<close> returns the
  double nearest to \<open>(call_oi - put_oi) / (call_oi + put_oi + 1)\<close>, which differs from
  that quotient by at most \<open>2\<^sup>-\<^sup>5\<^sup>4\<close>, and it lies strictly between \<open>-1\<close> and \<open>1\<close>.
\<close>

theorem oi_imbalance_open_interval:
  assumes "0 \<le> sint (oi_sum calls)" and "0 \<le> sint (oi_sum puts)"
    and "sint (oi_sum calls) + sint (oi_sum puts) < 2 ^ 53"
  shows "\<exists>r. oi_imbalance calls puts = Num r
     \<and> r = round_double
           ((real_of_int (sint (oi_sum calls)) - real_of_int (sint (oi_sum puts)))
            / (real_of_int (sint (oi_sum calls)) + real_of_int (sint (oi_sum puts)) + 1))
     \<and> \<bar>r - (real_of_int (sint (oi_sum calls)) - real_of_int (sint (oi_sum puts)))
            / (real_of_int (sint (oi_sum calls)) + real_of_int (sint (oi_sum puts)) + 1)\<bar>
         \<le> 1 / 2 ^ 54
     \<and> - 1 < r \<and> r < 1"
proof -
  let ?C = "sint (oi_sum calls)" and ?P = "sint (oi_sum puts)"
  let ?N = "real_of_int ?C - real_of_int ?P"
  let ?D = "real_of_int ?C + real_of_int ?P + 1"
  let ?q = "?N / ?D"
  have n: "sint (oi_sum calls - oi_sum puts) = ?C - ?P"
    by (rule sint_sub_nonneg [OF assms(1,2)])
  have d: "sint (oi_sum calls + oi_sum puts + 1) = ?C + ?P + 1"
    by (rule sint_sum_small [OF assms])
  have "\<bar>?C - ?P\<bar> \<le> 2 ^ 53" using assms by linarith
  then have cn: "int64_to_double (oi_sum calls - oi_sum puts) = Num ?N"
    using int64_to_double_exact [of "oi_sum calls - oi_sum puts"] by (simp add: n)
  have "\<bar>?C + ?P + 1\<bar> \<le> 2 ^ 53" using assms by linarith
  then have cd: "int64_to_double (oi_sum calls + oi_sum puts + 1) = Num ?D"
    using int64_to_double_exact [of "oi_sum calls + oi_sum puts + 1"] by (simp add: d)
  have Dpos: "0 < ?D" using assms(1,2) by linarith
  then have Dnz: "?D \<noteq> 0" by linarith
  have v: "oi_imbalance calls puts = Num (round_double ?q)"
    using Dnz by (simp add: oi_imbalance_def np_true_divide_def Let_def cn cd pf_ops)
  have Dle: "?D \<le> 2 ^ 53"
  proof -
    from assms(3) have "?C + ?P + 1 \<le> 2 ^ 53" by linarith
    then have "real_of_int (?C + ?P + 1) \<le> 2 ^ 53"
      by (metis of_int_le_iff of_int_numeral of_int_power)
    then show ?thesis by simp
  qed
  have "0 \<le> real_of_int ?C" "0 \<le> real_of_int ?P"
    using assms(1,2) by (simp_all only: of_int_0_le_iff)
  then have Nle: "\<bar>?N\<bar> \<le> ?D - 1" by linarith
  from round_double_quotient [OF Dpos Dle Nle]
  have er: "\<bar>round_double ?q - ?q\<bar> \<le> 1 / 2 ^ 54"
    and lo: "- 1 < round_double ?q" and hi: "round_double ?q < 1" by blast+
  from v lo hi er show ?thesis by blast
qed

text \<open>
  Calls with an open interest of \<open>500\<close> against no puts at all: the double nearest to
  \<open>500 / 501\<close>.
\<close>

theorem oi_imbalance_open_interval_witness:
  "0 \<le> sint (oi_sum demo_calls) \<and> 0 \<le> sint (oi_sum no_contracts)
   \<and> sint (oi_sum demo_calls) + sint (oi_sum no_contracts) < 2 ^ 53
   \<and> (\<exists>r. oi_imbalance demo_calls no_contracts = Num r \<and> r = round_double (500 / 501)
        \<and> \<bar>r - 500 / 501\<bar> \<le> 1 / 2 ^ 54 \<and> - 1 < r \<and> r < 1)"
proof -
  have c: "0 \<le> sint (oi_sum demo_calls)" and p: "0 \<le> sint (oi_sum no_contracts)"
    and b: "sint (oi_sum demo_calls) + sint (oi_sum no_contracts) < 2 ^ 53"
    by (simp_all add: oi_sum_demo)
  from oi_imbalance_open_interval [OF c p b] c p b show ?thesis
    by (simp add: oi_sum_demo)
qed

text \<open>
  Claim C6, as it is written, fails: with a total call open interest of \<open>2\<^sup>5\<^sup>3\<close> and no
  puts, both non-negative, the denominator \<open>2\<^sup>5\<^sup>3 + 1\<close> is rounded to \<open>2\<^sup>5\<^sup>3\<close> when it is
  converted to double precision, and the imbalance is exactly \<open>1\<close>.
\<close>

theorem oi_imbalance_reaches_one:
  "0 \<le> sint (oi_sum big_oi_calls) \<and> 0 \<le> sint (oi_sum no_contracts)
   \<and> oi_imbalance big_oi_calls no_contracts = Num 1"
proof -
  have a: "int64_to_double 9007199254740992 = Num (2 ^ 53)"
    using int64_to_double_exact [of 9007199254740992] by simp
  have b: "int64_to_double 9007199254740993 = Num (2 ^ 53)"
    using round_double_big by (simp add: int64_to_double_def)
  have one: "round_double 1 = 1" using round_double_of_int [of 1] by simp
  have "oi_imbalance big_oi_calls no_contracts = Num 1"
    using a b one by (simp add: oi_imbalance_def np_true_divide_def Let_def oi_sum_demo pf_ops)
  then show ?thesis by (simp add: oi_sum_demo)
qed

text \<open>
  With a total call open interest of \<open>2\<^sup>6\<^sup>3 - 1\<close> and no puts the denominator wraps around
  to \<open>-2\<^sup>6\<^sup>3\<close>, and the imbalance is exactly \<open>-1\<close>.
\<close>

lemma oi_imbalance_wraps:
  "0 \<le> sint (oi_sum max_oi_calls) \<and> oi_imbalance max_oi_calls no_contracts = Num (- 1)"
proof -
  have s: "oi_sum max_oi_calls = 9223372036854775807" "oi_sum no_contracts = 0"
    by (simp_all add: oi_sum_def max_oi_calls_def no_contracts_def)
  have a: "int64_to_double 9223372036854775807 = Num (2 ^ 63)"
    using round_double_max_int64 by (simp add: int64_to_double_def)
  have b: "int64_to_double (9223372036854775807 + 1) = Num (- (2 ^ 63))"
    using round_double_min_int64 by (simp add: int64_to_double_def)
  have one: "round_double (- 1) = - 1" using round_double_of_int [of "- 1"] by simp
  have "oi_imbalance max_oi_calls no_contracts = Num (- 1)"
    using a b one by (simp add: oi_imbalance_def np_true_divide_def Let_def s pf_ops)
  then show ?thesis by (simp add: s)
qed

subsection \<open>The first least value\<close>

lemma first_min_first_least:
  assumes "length pre = i" and "b < i" and "v = (pre @ xs) ! b"
    and "\<forall>k < i. v \<le> (pre @ xs) ! k" and "\<forall>k < b. v < (pre @ xs) ! k"
  shows "first_least (pre @ xs) (first_min b v i xs)"
  using assms
proof (induction xs arbitrary: pre i b v)
  case Nil
  then show ?case by (simp add: first_least_def)
next
  case (Cons x xs)
  have at_i: "(pre @ x # xs) ! i = x" using Cons.prems(1) by (simp add: nth_append)
  show ?case
  proof (cases "x < v")
    case True
    have "first_least ((pre @ [x]) @ xs) (first_min i x (Suc i) xs)"
    proof (rule Cons.IH)
      show "length (pre @ [x]) = Suc i" using Cons.prems(1) by simp
      show "i < Suc i" by simp
      show "x = ((pre @ [x]) @ xs) ! i" using at_i by simp
      show "\<forall>k < Suc i. x \<le> ((pre @ [x]) @ xs) ! k"
      proof (intro allI impI)
        fix k assume "k < Suc i"
        then consider "k < i" | "k = i" by linarith
        then show "x \<le> ((pre @ [x]) @ xs) ! k"
        proof cases
          case 1
          with Cons.prems(4) have "v \<le> (pre @ x # xs) ! k" by blast
          with True show ?thesis by simp
        next
          case 2
          with at_i show ?thesis by simp
        qed
      qed
      show "\<forall>k < i. x < ((pre @ [x]) @ xs) ! k"
      proof (intro allI impI)
        fix k assume "k < i"
        with Cons.prems(4) have "v \<le> (pre @ x # xs) ! k" by blast
        with True show "x < ((pre @ [x]) @ xs) ! k" by simp
      qed
    qed
    with True show ?thesis by simp
  next
    case False
    have "first_least ((pre @ [x]) @ xs) (first_min b v (Suc i) xs)"
    proof (rule Cons.IH)
      show "length (pre @ [x]) = Suc i" using Cons.prems(1) by simp
      show "b < Suc i" using Cons.prems(2) by simp
      show "v = ((pre @ [x]) @ xs) ! b" using Cons.prems(3) by simp
      show "\<forall>k < Suc i. v \<le> ((pre @ [x]) @ xs) ! k"
      proof (intro allI impI)
        fix k assume "k < Suc i"
        then consider "k < i" | "k = i" by linarith
        then show "v \<le> ((pre @ [x]) @ xs) ! k"
        proof cases
          case 1
          with Cons.prems(4) show ?thesis by simp
        next
          case 2
          with at_i False show ?thesis by simp
        qed
      qed
      show "\<forall>k < b. v < ((pre @ [x]) @ xs) ! k" using Cons.prems(5) by simp
    qed
    with False show ?thesis by simp
  qed
qed

lemma idxmin_first_least:
  assumes "ds \<noteq> []"
  shows "\<exists>i. idxmin ds = Inr i \<and> first_least ds i"
proof -
  from assms obtain x xs where ds: "ds = x # xs" by (cases ds) auto
  have "first_least ([x] @ xs) (first_min 0 x 1 xs)"
    by (rule first_min_first_least) (auto simp: less_Suc_eq)
  with ds show ?thesis by simp
qed

text \<open>The row the specification describes is determined: there is at most one.\<close>

lemma spec_atm_index_unique:
  "spec_atm_index spot cs i \<Longrightarrow> spec_atm_index spot cs j \<Longrightarrow> i = j"
  unfolding spec_atm_index_def by (metis linorder_neqE_nat not_less)

lemma idxmin_Inl_iff: "idxmin ds = Inl e \<longleftrightarrow> ds = []"
  by (cases e; cases ds) simp_all

lemma first_least_dist:
  assumes a: "first_least (map (\<lambda>c. \<bar>strike c - spot\<bar>) cs) i"
  shows "spec_atm_index spot cs i"
proof -
  from a have i: "i < length cs" by (simp add: first_least_def)
  have "\<bar>strike (cs ! i) - spot\<bar> \<le> \<bar>strike (cs ! k) - spot\<bar>" if "k < length cs" for k
    using a i that by (auto simp: first_least_def)
  moreover have "\<bar>strike (cs ! i) - spot\<bar> < \<bar>strike (cs ! k) - spot\<bar>" if "k < i" for k
  proof -
    from that i have "k < length cs" by simp
    with a i that show ?thesis by (auto simp: first_least_def)
  qed
  ultimately show ?thesis using i by (simp add: spec_atm_index_def)
qed

subsection \<open>The implied-move estimator\<close>

lemma implied_move_frames:
  "snd (implied_move spot calls puts) =
     (calls\<lparr>dist_col := Some (map (\<lambda>c. \<bar>strike c - spot\<bar>) (contracts calls))\<rparr>,
      puts\<lparr>dist_col := Some (map (\<lambda>c. \<bar>strike c - spot\<bar>) (contracts puts))\<rparr>)"
  by (simp add: implied_move_def Let_def split: sum.splits)

lemma implied_move_Inl:
  "fst (implied_move spot calls puts) = Inl e \<longleftrightarrow> contracts calls = [] \<or> contracts puts = []"
  by (cases e) (auto simp: implied_move_def Let_def idxmin_Inl_iff split: sum.splits
      intro: error.exhaust)

text \<open>
  Claim C7.  For every spot price and all non-empty call and put sides, \<open>implied_move\<close>
  returns \<open>(atm_call_price + atm_put_price) / spot\<close>, where the at-the-money call and
  put are, on each side by itself, the first row in the provider's order among those
  that minimise \<open>|strike - spot|\<close>; for a spot price other than zero that quotient is the
  number \<open>(atm_call_price + atm_put_price) / spot\<close>.
\<close>

theorem implied_move_atm:
  assumes "contracts calls \<noteq> []" and "contracts puts \<noteq> []"
  shows "\<exists>i j. spec_atm_index spot (contracts calls) i \<and> spec_atm_index spot (contracts puts) j
    \<and> fst (implied_move spot calls puts) =
        Inr ((Num (lastPrice (contracts calls ! i)) + Num (lastPrice (contracts puts ! j))) / Num spot)
    \<and> (spot \<noteq> 0 \<longrightarrow> fst (implied_move spot calls puts) =
        Inr (Num ((lastPrice (contracts calls ! i) + lastPrice (contracts puts ! j)) / spot)))"
proof -
  let ?cd = "map (\<lambda>c. \<bar>strike c - spot\<bar>) (contracts calls)"
  let ?pd = "map (\<lambda>c. \<bar>strike c - spot\<bar>) (contracts puts)"
  from assms have "?cd \<noteq> []" "?pd \<noteq> []" by simp_all
  then obtain i j where i: "idxmin ?cd = Inr i" "first_least ?cd i"
    and j: "idxmin ?pd = Inr j" "first_least ?pd j"
    using idxmin_first_least by blast
  have r: "fst (implied_move spot calls puts) =
      Inr ((Num (lastPrice (contracts calls ! i)) + Num (lastPrice (contracts puts ! j))) / Num spot)"
    using i(1) j(1) by (simp add: implied_move_def Let_def)
  have "(Num (lastPrice (contracts calls ! i)) + Num (lastPrice (contracts puts ! j))) / Num spot =
      Num ((lastPrice (contracts calls ! i) + lastPrice (contracts puts ! j)) / spot)" if "spot \<noteq> 0"
    using that by (simp add: pf_ops)
  with r i(2) j(2) show ?thesis
    using first_least_dist by metis
qed

lemma atm_tie_first: "spec_atm_index (195 / 2) (contracts demo_calls) 0"
  by (auto simp: spec_atm_index_def demo_calls_def less_Suc_eq numeral_3_eq_3)

lemma implied_move_tie:
  "fst (implied_move (195 / 2) demo_calls demo_puts) = Inr (Num (14 / 195))"
  by (simp add: implied_move_def demo_calls_def demo_puts_def pf_ops Let_def)

text \<open>
  Spot \<open>97.5\<close> on the concrete chain: the strikes \<open>95\<close> and \<open>100\<close> are equally near, the
  rows at strike \<open>95\<close>, which come first, are chosen, and the implied move is
  \<open>(6.5 + 0.5) / 97.5\<close>.
\<close>

theorem implied_move_atm_witness:
  "contracts demo_calls \<noteq> [] \<and> contracts demo_puts \<noteq> []
   \<and> (\<exists>i j. spec_atm_index (195 / 2) (contracts demo_calls) i
        \<and> spec_atm_index (195 / 2) (contracts demo_puts) j
        \<and> fst (implied_move (195 / 2) demo_calls demo_puts) =
            Inr (Num ((lastPrice (contracts demo_calls ! i) + lastPrice (contracts demo_puts ! j))
                   / (195 / 2))))
   \<and> spec_atm_index (195 / 2) (contracts demo_calls) 0
   \<and> fst (implied_move (195 / 2) demo_calls demo_puts) = Inr (Num (14 / 195))"
proof -
  have c: "contracts demo_calls \<noteq> []" and p: "contracts demo_puts \<noteq> []"
    by (simp_all add: demo_calls_def demo_puts_def)
  from implied_move_atm [OF c p, of "195 / 2"] c p atm_tie_first implied_move_tie
  show ?thesis by auto
qed

lemma implied_move_demo:
  "implied_move 100 demo_calls demo_puts =
     (Inr (Num (5 / 100)), demo_calls\<lparr>dist_col := Some [5, 0, 5]\<rparr>,
      demo_puts\<lparr>dist_col := Some [5, 0, 5]\<rparr>)"
  by (simp add: implied_move_def demo_calls_def demo_puts_def pf_ops Let_def)

lemma skew_proxy_dist_col:
  "skew_proxy (calls\<lparr>dist_col := d\<rparr>) (puts\<lparr>dist_col := e\<rparr>) = skew_proxy calls puts"
  by (simp add: skew_proxy_def)

lemma oi_imbalance_dist_col:
  "oi_imbalance (calls\<lparr>dist_col := d\<rparr>) (puts\<lparr>dist_col := e\<rparr>) = oi_imbalance calls puts"
  by (simp add: oi_imbalance_def oi_sum_def)

text \<open>
  Claim C9, as the program has it.  \<open>implied_move\<close> writes a column \<open>dist\<close>, the
  absolute distance of every strike to the spot, into both frames it is given, whether it
  returns or raises; it leaves the rows of both frames, with their strike, last price,
  implied volatility and open interest, as they were, and \<open>skew_proxy\<close> and
  \<open>oi_imbalance\<close>, which only read the frames, compute on the frames so written what
  they compute on the fetched ones.
\<close>

theorem implied_move_frame_effect:
  "contracts (fst (snd (implied_move spot calls puts))) = contracts calls
   \<and> contracts (snd (snd (implied_move spot calls puts))) = contracts puts
   \<and> dist_col (fst (snd (implied_move spot calls puts)))
       = Some (map (\<lambda>c. \<bar>strike c - spot\<bar>) (contracts calls))
   \<and> dist_col (snd (snd (implied_move spot calls puts)))
       = Some (map (\<lambda>c. \<bar>strike c - spot\<bar>) (contracts puts))
   \<and> skew_proxy (fst (snd (implied_move spot calls puts))) (snd (snd (implied_move spot calls puts)))
       = skew_proxy calls puts
   \<and> oi_imbalance (fst (snd (implied_move spot calls puts))) (snd (snd (implied_move spot calls puts)))
       = oi_imbalance calls puts"
  by (simp add: implied_move_frames skew_proxy_dist_col oi_imbalance_dist_col)

text \<open>
  Claim C9, as it is written, fails: after \<open>implied_move\<close> the fetched call frame is no
  longer the frame that was fetched; it has gained the column \<open>dist\<close>.
\<close>

theorem implied_move_changes_frames:
  "fst (snd (implied_move 100 demo_calls demo_puts)) \<noteq> demo_calls
   \<and> dist_col demo_calls = None
   \<and> dist_col (fst (snd (implied_move 100 demo_calls demo_puts))) = Some [5, 0, 5]"
  by (simp add: implied_move_demo) (simp add: demo_calls_def)

section \<open>Properties of the scan\<close>

lemma nan_not_accepted:
  "score_model im NaN skew imb = (u, s, c) \<Longrightarrow> \<not> py_ge u x"
  by (auto simp: score_model_def Let_def pf_ops)

lemma scan_ticker_appends:
  assumes "scan_ticker prov today mu mp t rs = Inr rs'"
  shows "rs' = rs \<or> (\<exists>row. rs' = rs @ [row] \<and> Ticker row = t
           \<and> reports_today prov today t \<and> hist_move prov t \<noteq> NaN)"
proof (cases "hist_move prov t = NaN")
  case True
  with assms show ?thesis
    by (auto simp: scan_ticker_def Let_def dest: nan_not_accepted
        split: if_splits option.splits prod.splits sum.splits)
next
  case False
  with assms show ?thesis
    by (auto simp: scan_ticker_def Let_def split: if_splits option.splits prod.splits sum.splits)
qed

lemma scan_loop_tickers:
  "scan_loop prov today mu mp ts rs = Inr out \<Longrightarrow>
     set (map Ticker out) \<subseteq> set (map Ticker rs)
       \<union> {t \<in> set ts. reports_today prov today t \<and> hist_move prov t \<noteq> NaN}"
proof (induction ts arbitrary: rs)
  case Nil
  then show ?case by simp
next
  case (Cons t ts)
  from Cons.prems obtain rs' where st: "scan_ticker prov today mu mp t rs = Inr rs'"
    and rest: "scan_loop prov today mu mp ts rs' = Inr out"
    by (auto split: sum.splits)
  from scan_ticker_appends [OF st]
  have "set (map Ticker rs') \<subseteq> set (map Ticker rs)
       \<union> {u \<in> set (t # ts). reports_today prov today u \<and> hist_move prov u \<noteq> NaN}"
    by auto
  moreover from Cons.IH [OF rest]
  have "set (map Ticker out) \<subseteq> set (map Ticker rs')
       \<union> {u \<in> set (t # ts). reports_today prov today u \<and> hist_move prov u \<noteq> NaN}"
    by auto
  ultimately show ?case by blast
qed

lemma scan_tickers:
  "tickers_of (scan prov today mu mp n sp500)
     \<subseteq> {t \<in> set (take n sp500). reports_today prov today t \<and> hist_move prov t \<noteq> NaN}"
proof (cases "scan prov today mu mp n sp500")
  case (Inl e)
  then show ?thesis by simp
next
  case (Inr out)
  then have "scan_loop prov today mu mp (take n sp500) [] = Inr out" by (simp add: scan_def)
  from scan_loop_tickers [OF this] Inr show ?thesis by simp
qed

text \<open>
  A ticker that reports today and whose fetched chain has an empty side ends the scan:
  its turn in the loop is the exception of \<open>implied_move\<close>.
\<close>

lemma scan_ticker_empty_side:
  assumes "reports_today prov today t"
    and "get_options_data prov t = Some (spot, expiry, calls, puts)"
    and "contracts calls = [] \<or> contracts puts = []"
  shows "scan_ticker prov today mu mp t rs = Inl ValueError"
proof -
  from assms(3) obtain e where "fst (implied_move spot calls puts) = Inl e"
    using implied_move_Inl [of spot calls puts ValueError] by blast
  then have "fst (implied_move spot calls puts) = Inl ValueError" by (cases e) simp
  with assms(1,2) show ?thesis
    by (cases "implied_move spot calls puts") (auto simp: scan_ticker_def)
qed

subsection \<open>The scan of the concrete market\<close>

lemma reports_today_demo:
  "reports_today demo_provider today0 ''ABC''"
  "reports_today demo_provider today0 ''NOHIST''"
  "reports_today demo_provider today0 ''NOCALLS''"
  "\<not> reports_today demo_provider today0 ''LATE''"
  by (simp_all add: reports_today_def demo_provider_def today0_def)

lemma get_options_data_demo:
  "get_options_data demo_provider ''ABC'' = Some (100, ''2024-05-03'', demo_calls, demo_puts)"
  "get_options_data demo_provider ''NOHIST'' = Some (100, ''2024-05-03'', demo_calls, demo_puts)"
  "get_options_data demo_provider ''NOCALLS'' = Some (100, ''2024-05-03'', no_contracts, demo_puts)"
  by (simp_all add: get_options_data_def demo_provider_def)

lemma hist_move_demo: "hist_move demo_provider ''ABC'' = Num (7 / 100)"
  by (simp add: hist_move_def demo_provider_def mean_skipna_def pf_ops)

lemma hist_move_nohist: "hist_move demo_provider ''NOHIST'' = NaN"
  by (simp add: hist_move_def demo_provider_def)

lemma skew_proxy_demo: "skew_proxy demo_calls demo_puts = Num 0"
  by (simp add: skew_proxy_def demo_calls_def demo_puts_def mean_skipna_def pf_ops)

lemma oi_imbalance_demo: "oi_imbalance demo_calls demo_puts = Num 0"
proof -
  have "int64_to_double 1001 = Num 1001"
    using int64_to_double_exact [of 1001] by simp
  moreover have "int64_to_double 0 = Num 0" by (simp add: int64_to_double_def)
  ultimately show ?thesis
    by (simp add: oi_imbalance_def np_true_divide_def Let_def oi_sum_demo pf_ops)
qed

lemma scan_ticker_abc:
  "scan_ticker demo_provider today0 1 (1 / 2) ''ABC'' rs = Inr (rs @ [abc_row])"
  by (simp add: scan_ticker_def reports_today_demo get_options_data_demo implied_move_demo
      hist_move_demo skew_proxy_dist_col oi_imbalance_dist_col skew_proxy_demo oi_imbalance_demo
      score_model_def tilt_def pf_ops Let_def abc_row_def)

lemma scan_ticker_late:
  "scan_ticker demo_provider today0 1 (1 / 2) ''LATE'' rs = Inr rs"
  by (simp add: scan_ticker_def reports_today_demo)

lemma scan_ticker_nocalls:
  "scan_ticker demo_provider today0 1 (1 / 2) ''NOCALLS'' rs = Inl ValueError"
  by (simp add: scan_ticker_def reports_today_demo get_options_data_demo implied_move_def
      no_contracts_def Let_def)

text \<open>
  \<open>LATE\<close> has the very metrics of \<open>ABC\<close> and \<open>NOHIST\<close> its option chain; of the three
  only \<open>ABC\<close> is in the result set.
\<close>

lemma scan_demo:
  "scan demo_provider today0 1 (1 / 2) 20 [''LATE'', ''NOHIST'', ''ABC''] = Inr [abc_row]"
proof -
  have "scan_ticker demo_provider today0 1 (1 / 2) ''NOHIST'' [] = Inr []"
    by (simp add: scan_ticker_def reports_today_demo get_options_data_demo implied_move_demo
        hist_move_nohist score_model_def pf_ops Let_def)
  then show ?thesis
    by (simp add: scan_def scan_ticker_late scan_ticker_abc)
qed

text \<open>
  Claim C4 does not hold of the program.  \<open>NOCALLS\<close> reports today and its fetched chain
  has an empty call side: \<open>get_options_data\<close> hands the chain on, \<open>implied_move\<close> raises
  \<open>ValueError\<close>, and the scan ends with that exception instead of skipping the ticker;
  the row of \<open>ABC\<close>, accepted before, is lost with it.
\<close>

theorem scan_empty_chain_raises:
  "get_options_data demo_provider ''NOCALLS'' = Some (100, ''2024-05-03'', no_contracts, demo_puts)
   \<and> contracts no_contracts = []
   \<and> scan demo_provider today0 1 (1 / 2) 20 [''ABC'', ''NOCALLS''] = Inl ValueError"
  by (simp add: get_options_data_demo scan_def scan_ticker_abc scan_ticker_nocalls)
    (simp add: no_contracts_def)

text \<open>
  Claim C5.  If the earnings-date lookup of a ticker does anything but yield today's date
  (the provider raises, the calendar is absent, empty or malformed, or the date is another
  day), then \<open>reports_today\<close> returns false, and it is a plain value, no error; and the
  ticker is in the result set of no scan, whatever its metrics, the thresholds and the
  universe.
\<close>

theorem reports_today_gate:
  assumes "calendar prov t \<noteq> Calendar_Earnings today"
  shows "reports_today prov today t = False
    \<and> t \<notin> tickers_of (scan prov today min_underpricing min_prob max_symbols sp500)"
proof -
  from assms have "\<not> reports_today prov today t"
    by (auto simp: reports_today_def split: earnings_calendar.splits)
  with scan_tickers [of prov today min_underpricing min_prob max_symbols sp500]
  show ?thesis by auto
qed

text \<open>\<open>LATE\<close>, whose metrics would qualify, reports tomorrow.\<close>

theorem reports_today_gate_witness:
  "calendar demo_provider ''LATE'' \<noteq> Calendar_Earnings today0
   \<and> reports_today demo_provider today0 ''LATE'' = False
   \<and> ''LATE'' \<notin> tickers_of (scan demo_provider today0 1 (1 / 2) 20 [''LATE'', ''NOHIST'', ''ABC''])"
proof -
  have h: "calendar demo_provider ''LATE'' \<noteq> Calendar_Earnings today0"
    by (simp add: demo_provider_def today0_def)
  from reports_today_gate [OF h] h show ?thesis by blast
qed

text \<open>
  Claim C10.  If fetching the two-year history of a ticker fails, then \<open>hist_move\<close>
  yields not-a-number; the underpricing derived from it is not-a-number for every implied
  move, skew and imbalance; the comparison \<open>underpricing >= min_underpricing\<close> is false
  for every threshold; the ticker is in the result set of no scan; and its turn in the
  loop hands on the result list as it was and raises nothing, the one exception being a
  ticker that reports today and has an empty call or put side, where \<open>implied_move\<close>
  raises before the historical move is asked for.
\<close>

theorem hist_move_failure_excluded:
  assumes "history_2y prov t = None"
  shows "hist_move prov t = NaN
    \<and> underpricing_of (score_model im (hist_move prov t) skew imb) = NaN
    \<and> \<not> py_ge (underpricing_of (score_model im (hist_move prov t) skew imb)) (Num min_underpricing)
    \<and> (scan_ticker prov today min_underpricing min_prob t results = Inr results
        \<or> (\<exists>spot expiry calls puts. reports_today prov today t
              \<and> get_options_data prov t = Some (spot, expiry, calls, puts)
              \<and> (contracts calls = [] \<or> contracts puts = [])))
    \<and> t \<notin> tickers_of (scan prov today min_underpricing min_prob max_symbols sp500)"
proof -
  from assms have hm: "hist_move prov t = NaN" by (simp add: hist_move_def)
  have u: "underpricing_of (score_model im NaN skew imb) = NaN"
    by (simp add: score_model_def underpricing_of_def Let_def pf_ops)
  have step: "scan_ticker prov today min_underpricing min_prob t results = Inr results
        \<or> (\<exists>spot expiry calls puts. reports_today prov today t
              \<and> get_options_data prov t = Some (spot, expiry, calls, puts)
              \<and> (contracts calls = [] \<or> contracts puts = []))"
  proof (cases "scan_ticker prov today min_underpricing min_prob t results")
    case (Inr rs')
    from scan_ticker_appends [OF Inr] hm Inr show ?thesis by auto
  next
    case (Inl e)
    then obtain spot expiry calls puts where "reports_today prov today t"
      and "get_options_data prov t = Some (spot, expiry, calls, puts)"
      and "fst (implied_move spot calls puts) = Inl e"
      by (auto simp: scan_ticker_def Let_def split: if_splits option.splits prod.splits sum.splits)
    then show ?thesis using implied_move_Inl by blast
  qed
  from scan_tickers [of prov today min_underpricing min_prob max_symbols sp500] hm
  have "t \<notin> tickers_of (scan prov today min_underpricing min_prob max_symbols sp500)" by auto
  with hm u step show ?thesis by simp
qed

text \<open>
  \<open>NOHIST\<close> reports today and has the option chain of \<open>ABC\<close>, but no history: its turn
  leaves the result list empty, and the scan goes on to accept \<open>ABC\<close> without it.
\<close>

theorem hist_move_failure_excluded_witness:
  "history_2y demo_provider ''NOHIST'' = None
   \<and> hist_move demo_provider ''NOHIST'' = NaN
   \<and> underpricing_of (score_model (Num (5 / 100)) (hist_move demo_provider ''NOHIST'') (Num 0) (Num 0)) = NaN
   \<and> scan_ticker demo_provider today0 1 (1 / 2) ''NOHIST'' [] = Inr []
   \<and> ''NOHIST'' \<notin> tickers_of (scan demo_provider today0 1 (1 / 2) 20 [''LATE'', ''NOHIST'', ''ABC''])"
proof -
  have h: "history_2y demo_provider ''NOHIST'' = None"
    by (simp add: demo_provider_def)
  have ne: "contracts demo_calls \<noteq> []" "contracts demo_puts \<noteq> []"
    by (simp_all add: demo_calls_def demo_puts_def)
  from hist_move_failure_excluded [OF h, of "Num (5 / 100)" "Num 0" "Num 0" 1 today0 "1 / 2" "[]"
      20 "[''LATE'', ''NOHIST'', ''ABC'']"]
  show ?thesis using h ne by (auto simp: get_options_data_demo)
qed

end
